theory Spec2Isabelle
  imports Complex_Main "HOL-Library.Sublist"
begin

section \<open>Numbers\<close>

text \<open>
  The client's numbers are IEEE 754 doubles. A finite double is modelled by the rational
  it denotes, the two zeros being one value (the code never divides by a zero, and its
  comparisons and \<^verbatim>\<open>fmtMoney\<close> treat the two alike, so their sign is not
  observable); the other values are the two infinities and \<^verbatim>\<open>NaN\<close>.
\<close>

datatype double = Finite rat | PosInf | NegInf | NaN

text \<open>
  Rounding to the nearest double, ties to even, as \<^verbatim>\<open>JSON.parse\<close> rounds a number of
  the response and as each arithmetic operation rounds its exact result. The magnitude is
  brought to the form \<open>a * 2 powi q\<close> with \<open>a\<close> in the range of a 53-bit significand, or
  with \<open>q\<close> at the exponent of the subnormal numbers; \<open>a\<close> is rounded to an integer; a
  result of \<open>2 ^ 1024\<close> or more is an infinity.
\<close>

function shrink :: "rat \<Rightarrow> int \<Rightarrow> rat \<times> int" where
  "shrink a q = (if 2 ^ 53 \<le> a then shrink (a / 2) (q + 1) else (a, q))"
  by pat_completeness auto
termination
proof (relation "measure (\<lambda>(a, q). nat \<lfloor>a\<rfloor>)")
  show "wf (measure (\<lambda>(a, q). nat \<lfloor>a\<rfloor>))"
    by simp
next
  fix a :: rat and q :: int
  assume "2 ^ 53 \<le> a"
  then have two: "2 \<le> a"
    by simp
  then have "a / 2 \<le> a - 1"
    by simp
  then have "\<lfloor>a / 2\<rfloor> \<le> \<lfloor>a - 1\<rfloor>"
    by (rule floor_mono)
  then have "\<lfloor>a / 2\<rfloor> < \<lfloor>a\<rfloor>"
    by simp
  moreover have "0 < \<lfloor>a\<rfloor>"
    using two by simp
  ultimately show "((a / 2, q + 1), (a, q)) \<in> measure (\<lambda>(a, q). nat \<lfloor>a\<rfloor>)"
    by simp
qed

function grow :: "rat \<Rightarrow> int \<Rightarrow> rat \<times> int" where
  "grow a q = (if a < 2 ^ 52 \<and> - 1074 < q then grow (a * 2) (q - 1) else (a, q))"
  by pat_completeness auto
termination
  by (relation "measure (\<lambda>(a, q). nat (q + 1074))") auto

definition round_half_even :: "rat \<Rightarrow> int" where
  "round_half_even x =
     (let f = \<lfloor>x\<rfloor>; r = x - of_int f
      in if r < 1 / 2 then f else if 1 / 2 < r then f + 1 else if even f then f else f + 1)"

definition to_double :: "rat \<Rightarrow> double" where
  "to_double x =
     (if x = 0 then Finite 0
      else
        (let (a, q) = shrink \<bar>x\<bar> 0;
             (a, q) = grow a q;
             r = of_int (round_half_even a) * 2 powi q
         in if 2 ^ 1024 \<le> r then (if 0 < x then PosInf else NegInf)
            else Finite (if 0 < x then r else - r)))"

text \<open>
  Subtraction, multiplication, absolute value and the comparison \<^verbatim>\<open><\<close> of doubles
  (\<^verbatim>\<open>a > b\<close> is \<open>dless b a\<close>). A comparison with \<^verbatim>\<open>NaN\<close> is false.
\<close>

fun dsub :: "double \<Rightarrow> double \<Rightarrow> double" where
  "dsub (Finite a) (Finite b) = to_double (a - b)"
| "dsub NaN y = NaN"
| "dsub x NaN = NaN"
| "dsub PosInf PosInf = NaN"
| "dsub NegInf NegInf = NaN"
| "dsub PosInf y = PosInf"
| "dsub NegInf y = NegInf"
| "dsub x PosInf = NegInf"
| "dsub x NegInf = PosInf"

fun dsign :: "double \<Rightarrow> int" where
  "dsign (Finite a) = (if 0 < a then 1 else if a < 0 then - 1 else 0)"
| "dsign PosInf = 1"
| "dsign NegInf = - 1"
| "dsign NaN = 0"

fun dmul :: "double \<Rightarrow> double \<Rightarrow> double" where
  "dmul (Finite a) (Finite b) = to_double (a * b)"
| "dmul NaN y = NaN"
| "dmul x NaN = NaN"
| "dmul x y =
     (if dsign x * dsign y = 0 then NaN else if 0 < dsign x * dsign y then PosInf else NegInf)"

fun dabs :: "double \<Rightarrow> double" where
  "dabs (Finite a) = Finite \<bar>a\<bar>"
| "dabs PosInf = PosInf"
| "dabs NegInf = PosInf"
| "dabs NaN = NaN"

fun dless :: "double \<Rightarrow> double \<Rightarrow> bool" where
  "dless (Finite a) (Finite b) = (a < b)"
| "dless NaN y = False"
| "dless x NaN = False"
| "dless x NegInf = False"
| "dless PosInf y = False"
| "dless NegInf y = True"
| "dless x PosInf = True"

section \<open>Values and templates\<close>

text \<open>
  The client receives its data as parsed JSON. At a position of a figure array the code
  meets a number, \<^verbatim>\<open>null\<close>, or (past the end of the array) \<^verbatim>\<open>undefined\<close>.
  \<open>Num x\<close> is the number whose text in the response denotes \<open>x\<close>; the code computes
  with \<open>to_double x\<close>.
\<close>

datatype jsnum = Undefined | Null | Num rat

text \<open>
  A field that should hold a figure array holds one, or is absent (missing,
  \<^verbatim>\<open>null\<close> or another falsy value), or holds a truthy value that is not an array.
  \<^verbatim>\<open>x || []\<close> replaces an absent field by the empty array.
\<close>

datatype field = Absent | Arr "jsnum list" | NotArr

definition or_array :: "field \<Rightarrow> field" where
  "or_array x = (case x of Absent \<Rightarrow> Arr [] | Arr xs \<Rightarrow> Arr xs | NotArr \<Rightarrow> NotArr)"

text \<open>
  \<^verbatim>\<open>arr[i]\<close>: reading past the end of a JavaScript array yields \<^verbatim>\<open>undefined\<close>, and
  so does reading a position of a number, of \<^verbatim>\<open>true\<close> or of an object that has no
  such key. (A string, and an object with the keys 0, 1 or 2, would yield what they hold
  there; of the values that are not arrays the model has those that hold nothing.)
\<close>

definition item :: "field \<Rightarrow> nat \<Rightarrow> jsnum" where
  "item x i = (case x of Arr xs \<Rightarrow> (if i < length xs then xs ! i else Undefined) | _ \<Rightarrow> Undefined)"

text \<open>\<^verbatim>\<open>x || []\<close> on a field that is a list of strings or is absent.\<close>

definition or_empty :: "'a list option \<Rightarrow> 'a list" where
  "or_empty x = (case x of None \<Rightarrow> [] | Some arr \<Rightarrow> arr)"

text \<open>
  A template literal is kept as the sequence of its parts: the literal text, and for each
  interpolation the value handed to the formatting function. \<open>Dec n\<close> is a count or
  index printed in decimal, \<open>Money v\<close> and \<open>Amount v\<close> are \<^verbatim>\<open>fmtMoney(v)\<close> of a
  number of the response and of a double the code has computed, \<open>Esc t\<close> is
  \<^verbatim>\<open>escapeHtml(t)\<close> (with \<open>None\<close> for \<^verbatim>\<open>undefined\<close>).
\<close>

datatype part = Txt string | Dec nat | Money rat | Amount double | Esc "string option"

type_synonym template = "part list"

text \<open>The em dash of the source's messages, as its three UTF-8 bytes.\<close>

definition em_dash :: string where
  "em_dash = [CHR 0xE2, CHR 0x80, CHR 0x94]"

section \<open>Data integrity warnings\<close>

record financials =
  net_revenue_hist :: field
  gross_profit_hist :: field
  sga_hist :: field
  adj_ebitda_hist :: field
  depreciation_hist :: field

text \<open>
  The extraction handed to the analyzer is an object: the caller returns before the
  call when the response has no extraction. Its two lists of applied corrections and
  derivations are arrays of strings or absent; the analyzer only asks their length.
\<close>

record extraction =
  financials :: "financials option"
  corrections_applied :: "string list option"
  derivations_applied :: "string list option"

datatype level = Error | Info

record warning =
  level :: level
  message :: template

datatype error = TypeError

text \<open>\<^verbatim>\<open>ext.financials || {}\<close>: the empty object has none of the fields.\<close>

definition no_financials :: financials where
  "no_financials = \<lparr>net_revenue_hist = Absent, gross_profit_hist = Absent, sga_hist = Absent,
     adj_ebitda_hist = Absent, depreciation_hist = Absent\<rparr>"

definition financials_of :: "extraction \<Rightarrow> financials" where
  "financials_of ext = (case financials ext of None \<Rightarrow> no_financials | Some f \<Rightarrow> f)"

text \<open>
  Check 1: revenue completeness. \<^verbatim>\<open>revHist.filter(v => v === null).length\<close> counts
  over an array; a value that is not an array has no \<^verbatim>\<open>filter\<close>, and the call throws.
\<close>

definition nullRevCount :: "financials \<Rightarrow> error + nat" where
  "nullRevCount f =
     (case or_array (net_revenue_hist f) of
        Arr revHist \<Rightarrow> Inr (length (filter (\<lambda>v. v = Null) revHist))
      | _ \<Rightarrow> Inl TypeError)"

definition check1 :: "financials \<Rightarrow> error + warning list" where
  "check1 f =
     (case nullRevCount f of
        Inl e \<Rightarrow> Inl e
      | Inr n \<Rightarrow>
          Inr (if n > 0
               then [\<lparr>level = Error, message =
                       [Txt ''Revenue missing for '', Dec n,
                        Txt '' of 3 historical year(s). Margins and growth rates cannot be calculated.'']\<rparr>]
               else []))"

text \<open>
  Check 2, the body of the loop at index \<open>i\<close>: the warnings it pushes. The guard
  \<^verbatim>\<open>x != null\<close> rejects both \<^verbatim>\<open>null\<close> and \<^verbatim>\<open>undefined\<close>; the difference and
  the comparison are those of doubles.
\<close>

definition check2_body :: "field \<Rightarrow> field \<Rightarrow> field \<Rightarrow> nat \<Rightarrow> warning list" where
  "check2_body gp sga ebitda i =
     (case (item gp i, item sga i, item ebitda i) of
        (Num g, Num s, Num e) \<Rightarrow>
          (let oi = dsub (to_double g) (to_double s) in
           if dless (to_double e) oi
           then [\<lparr>level = Error, message =
                   [Txt ''Year '', Dec (i + 1), Txt '': Operating Income ('', Amount oi,
                    Txt '') exceeds EBITDA ('', Amount (to_double e),
                    Txt ('') '' @ em_dash @ '' rows may be swapped'')]\<rparr>]
           else [])
      | _ \<Rightarrow> [])"

function check2_loop :: "field \<Rightarrow> field \<Rightarrow> field \<Rightarrow> nat \<Rightarrow> warning list \<Rightarrow> warning list" where
  "check2_loop gp sga ebitda i warnings =
     (if i < 3
      then check2_loop gp sga ebitda (i + 1) (warnings @ check2_body gp sga ebitda i)
      else warnings)"
  by pat_completeness auto
termination
  by (relation "measure (\<lambda>(gp, sga, ebitda, i, warnings). 3 - i)") auto

text \<open>
  Check 3, the body of the loop at index \<open>i\<close>:
  \<^verbatim>\<open>Math.abs(dep[i] - ebitda[i]) < Math.abs(ebitda[i]) * 0.15\<close> in doubles, the constant
  being the double nearest to 0.15.
\<close>

definition check3_body :: "field \<Rightarrow> field \<Rightarrow> nat \<Rightarrow> warning list" where
  "check3_body dep ebitda i =
     (case (item dep i, item ebitda i) of
        (Num d, Num e) \<Rightarrow>
          (if dless (dabs (dsub (to_double d) (to_double e)))
                (dmul (dabs (to_double e)) (to_double 0.15))
           then [\<lparr>level = Error, message =
                   [Txt ''Year '', Dec (i + 1), Txt '': Depreciation ('', Amount (to_double d),
                    Txt '') nearly equals EBITDA ('', Amount (to_double e),
                    Txt ('') '' @ em_dash @ '' likely a copy error'')]\<rparr>]
           else [])
      | _ \<Rightarrow> [])"

function check3_loop :: "field \<Rightarrow> field \<Rightarrow> nat \<Rightarrow> warning list \<Rightarrow> warning list" where
  "check3_loop dep ebitda i warnings =
     (if i < 3
      then check3_loop dep ebitda (i + 1) (warnings @ check3_body dep ebitda i)
      else warnings)"
  by pat_completeness auto
termination
  by (relation "measure (\<lambda>(dep, ebitda, i, warnings). 3 - i)") auto

text \<open>Check 4: corrections and derivations applied upstream.\<close>

definition check4 :: "extraction \<Rightarrow> warning list" where
  "check4 ext =
     (let corrections = or_empty (corrections_applied ext);
          derivations = or_empty (derivations_applied ext)
      in if length corrections > 0 \<or> length derivations > 0
         then [\<lparr>level = Info, message =
                 [Dec (length corrections), Txt '' auto-correction(s) and '',
                  Dec (length derivations), Txt '' derivation(s) applied'']\<rparr>]
         else [])"

text \<open>
  \<^verbatim>\<open>renderIntegrityWarnings\<close>, up to the point where the \<^verbatim>\<open>warnings\<close> array is
  complete; the value is that array, or the error thrown on the way. Check 1 runs
  first, so that nothing has been pushed when it throws.
\<close>

definition renderIntegrityWarnings :: "extraction \<Rightarrow> error + warning list" where
  "renderIntegrityWarnings ext =
     (let f = financials_of ext in
      case check1 f of
        Inl e \<Rightarrow> Inl e
      | Inr warnings \<Rightarrow>
          (let gp = or_array (gross_profit_hist f);
               sga = or_array (sga_hist f);
               ebitda = or_array (adj_ebitda_hist f);
               warnings = check2_loop gp sga ebitda 0 warnings;
               dep = or_array (depreciation_hist f);
               warnings = check3_loop dep ebitda 0 warnings
           in Inr (warnings @ check4 ext)))"

text \<open>
  The warnings that checks 2 and 3 contribute, over the three positions of the loops.
\<close>

definition rule2_warnings :: "extraction \<Rightarrow> warning list" where
  "rule2_warnings ext =
     concat (map (check2_body (or_array (gross_profit_hist (financials_of ext)))
       (or_array (sga_hist (financials_of ext)))
       (or_array (adj_ebitda_hist (financials_of ext)))) [0, 1, 2])"

definition rule3_warnings :: "extraction \<Rightarrow> warning list" where
  "rule3_warnings ext =
     concat (map (check3_body (or_array (depreciation_hist (financials_of ext)))
       (or_array (adj_ebitda_hist (financials_of ext)))) [0, 1, 2])"



text \<open>What \<^verbatim>\<open>x != null\<close> rejects.\<close>

definition missing :: "jsnum \<Rightarrow> bool" where
  "missing v = (v = Null \<or> v = Undefined)"

text \<open>The warnings that check 1 contributes when it does not throw.\<close>

definition rule1_warnings :: "extraction \<Rightarrow> warning list" where
  "rule1_warnings ext = (case check1 (financials_of ext) of Inl e \<Rightarrow> [] | Inr ws \<Rightarrow> ws)"

text \<open>An extraction used to exercise the rules.\<close>

definition scenario :: extraction where
  "scenario = \<lparr>financials = Some \<lparr>net_revenue_hist = Arr [Num 5000, Null, Num 7000],
       gross_profit_hist = Arr [Num 2000, Num 2500],
       sga_hist = Arr [Num 500, Num 2000, Num 100],
       adj_ebitda_hist = Arr [Num 1000, Num 1000, Num 1000],
       depreciation_hist = Arr [Num 950, Num 2000, Null]\<rparr>,
     corrections_applied = Some [''sign flipped''], derivations_applied = None\<rparr>"






section \<open>Provenance of values\<close>

text \<open>
  A provenance tag is a string or is absent. \<^verbatim>\<open>!source\<close> holds of an absent tag and
  of the empty string; \<^verbatim>\<open>a || b\<close> is \<open>a\<close> unless \<open>a\<close> is falsy.
\<close>

definition truthy :: "string option \<Rightarrow> bool" where
  "truthy x = (case x of None \<Rightarrow> False | Some s \<Rightarrow> s \<noteq> [])"

definition js_or :: "string option \<Rightarrow> string option \<Rightarrow> string option" where
  "js_or a b = (if truthy a then a else b)"

text \<open>The decimal numeral of an array index, as string concatenation prints it.\<close>

definition digit :: "nat \<Rightarrow> char" where
  "digit n = ''0123456789'' ! n"

function decimal :: "nat \<Rightarrow> string" where
  "decimal n = (if n < 10 then [digit n] else decimal (n div 10) @ [digit (n mod 10)])"
  by pat_completeness auto
termination
  by (relation "measure (\<lambda>n. n)") auto

definition moneyCell :: "jsnum \<Rightarrow> string option \<Rightarrow> template" where
  \<open>moneyCell val source =
     (case val of
        Num v \<Rightarrow>
          (let suffix = (if source = Some ''derived''
                         then '' <span class="derived-tag">(est.)</span>'' else [])
           in if v < 0 then [Txt ''<td class="negative">'', Money v, Txt suffix, Txt ''</td>'']
              else [Txt ''<td>'', Money v, Txt suffix, Txt ''</td>''])
      | _ \<Rightarrow> [Txt ''<td>--</td>''])\<close>

definition generic_tooltip :: string where
  "generic_tooltip = ''Estimated value '' @ em_dash @ '' not directly from document''"

definition tooltips :: "(string \<times> string) list" where
  "tooltips =
     [(''derived:capex_revenue_ratio'', ''Estimated using CapEx-to-Revenue ratio from known years''),
      (''derived:flat_last_known'', ''Estimated using most recent known CapEx value (flat)''),
      (''derived:depreciation_ratio'',
         ''Estimated as 25% of Depreciation (maintenance assumption)''),
      (''derived:industry_default'', ''Estimated using 0.5% of Revenue industry default''),
      (''derived'', generic_tooltip)]"

text \<open>
  \<^verbatim>\<open>tooltips[source] || '...'\<close>, over the table's own five keys (a tag that names a
  property every JavaScript object inherits, such as \<^verbatim>\<open>constructor\<close>, is not a tag the
  backend issues and is outside this model).
\<close>

definition getCapexMethodTooltip :: "string \<Rightarrow> string" where
  "getCapexMethodTooltip source =
     (case js_or (map_of tooltips source) (Some generic_tooltip) of
        Some t \<Rightarrow> t | None \<Rightarrow> generic_tooltip)"

definition capexCell :: "jsnum \<Rightarrow> string option \<Rightarrow> template" where
  \<open>capexCell val source =
     (case val of
        Num v \<Rightarrow>
          (let formatted = Money v in
           if \<not> truthy source \<or> source = Some ''direct''
           then (if v < 0 then [Txt ''<td class="negative">'', formatted, Txt ''</td>'']
                 else [Txt ''<td>'', formatted, Txt ''</td>''])
           else
             (let tooltip = getCapexMethodTooltip (case source of Some tag \<Rightarrow> tag | None \<Rightarrow> []);
                  badge = '' <span class="derived-badge" title="'' @ tooltip @ ''">(est.)</span>''
              in if v < 0
                 then [Txt ''<td class="negative">'', formatted, Txt badge, Txt ''</td>'']
                 else [Txt ''<td>'', formatted, Txt badge, Txt ''</td>'']))
      | _ \<Rightarrow> [Txt ''<td>--</td>''])\<close>

text \<open>
  The shapes a rendered cell takes: the cell around its content (with the class of a
  negative value), the badge that carries a tooltip, and the bare tag.
\<close>

definition td :: "rat \<Rightarrow> part list \<Rightarrow> template" where
  \<open>td v inner =
     (if v < 0 then Txt ''<td class="negative">'' # inner @ [Txt ''</td>'']
      else Txt ''<td>'' # inner @ [Txt ''</td>''])\<close>

definition est_badge :: "string \<Rightarrow> string" where
  \<open>est_badge tooltip =
     '' <span class="derived-badge" title="'' @ tooltip @ ''">(est.)</span>''\<close>

definition est_tag :: string where
  \<open>est_tag = '' <span class="derived-tag">(est.)</span>''\<close>

text \<open>
  \<^verbatim>\<open>getSource\<close>: \<open>sources\<close> is the \<^verbatim>\<open>field_sources\<close> object (its own keys, each
  with a string tag) or is absent.
\<close>

definition getSource :: "(string \<rightharpoonup> string) option \<Rightarrow> string \<Rightarrow> nat \<Rightarrow> string option" where
  "getSource sources key index =
     (case sources of
        None \<Rightarrow> None
      | Some m \<Rightarrow> js_or (js_or (m (key @ ''_'' @ decimal index)) (m key)) None)"

text \<open>
  Two \<^verbatim>\<open>field_sources\<close> objects with one entry: for one year of a field, and for
  a field as a whole.
\<close>

definition capex_sources :: "string \<rightharpoonup> string" where
  "capex_sources = [''capex_hist_1'' \<mapsto> ''derived:flat_last_known'']"

definition sga_sources :: "string \<rightharpoonup> string" where
  "sga_sources = [''sga_hist'' \<mapsto> ''derived'']"

section \<open>Pipeline status polling\<close>

text \<open>The body of a status response; a field the response lacks is \<open>None\<close>.\<close>

record status =
  ocr_status :: "string option"
  extraction_status :: "string option"
  error_message :: "string option"
  extraction_error :: "string option"
  company_name :: "string option"
  filename :: "string option"

text \<open>
  What one tick does to the page and to the poller, in the order it does it. \<open>Show l\<close>
  is an assignment \<^verbatim>\<open>ss.innerHTML = l\<close>; \<open>Finish l\<close> is that assignment followed by
  \<^verbatim>\<open>clearInterval(interval); delete activePollers[docId]; loadDashboard()\<close>.
\<close>

datatype action = Show template | Finish template

definition stage1_label :: template where
  \<open>stage1_label =
     [Txt ''<span class="spinner"></span> <strong>Stage 1/2:</strong> Extracting text from PDF...'']\<close>

definition ocr_failed_label :: "status \<Rightarrow> template" where
  \<open>ocr_failed_label data =
     [Txt ''<span style="color:#ef4444;">&#10007; OCR Failed: '',
      Esc (js_or (error_message data) (Some ''Unknown'')), Txt ''</span>'']\<close>

definition stage2_analyzing_label :: template where
  \<open>stage2_analyzing_label =
     [Txt ''<span class="spinner"></span> <strong>Stage 2/2:</strong> AI analyzing financials...'']\<close>

definition complete_label :: "status \<Rightarrow> template" where
  \<open>complete_label data =
     [Txt ''<span style="color:#22c55e;">&#10003; Analysis Complete &mdash; '',
      Esc (js_or (company_name data) (filename data)), Txt ''</span>'']\<close>

definition extraction_failed_label :: "status \<Rightarrow> template" where
  \<open>extraction_failed_label data =
     [Txt ''<span style="color:#eab308;">&#9888; OCR done but extraction failed: '',
      Esc (js_or (extraction_error data) (Some ''Unknown'')), Txt ''</span>'']\<close>

definition stage2_starting_label :: template where
  \<open>stage2_starting_label =
     [Txt ''<span class="spinner"></span> <strong>Stage 2/2:</strong> Starting AI extraction...'']\<close>

text \<open>The second conditional of the tick: the chain on the extraction status.\<close>

definition extraction_chain :: "status \<Rightarrow> action list" where
  "extraction_chain data =
     (if ocr_status data = Some ''completed'' \<and> extraction_status data = Some ''processing''
      then [Show stage2_analyzing_label]
      else if extraction_status data = Some ''completed''
      then [Finish (complete_label data)]
      else if extraction_status data = Some ''failed''
      then [Finish (extraction_failed_label data)]
      else if ocr_status data = Some ''completed''
            \<and> (\<not> truthy (extraction_status data) \<or> extraction_status data = Some ''pending'')
      then [Show stage2_starting_label]
      else [])"

text \<open>
  The two conditionals in sequence. Only the branch for a failed OCR returns; after the
  branch for a running OCR the second conditional is still evaluated.
\<close>

definition tick_actions :: "status \<Rightarrow> action list" where
  "tick_actions data =
     (if ocr_status data = Some ''processing''
      then Show stage1_label # extraction_chain data
      else if ocr_status data = Some ''failed''
      then [Finish (ocr_failed_label data)]
      else extraction_chain data)"

text \<open>
  The stage of a status response by the seven cases in their order of precedence, the
  first that matches deciding alone; a status is absent when the response lacks it or has
  it empty. This definition follows the specification, for comparison with
  \<open>tick_actions\<close>.
\<close>

definition stage_by_precedence :: "status \<Rightarrow> action list" where
  "stage_by_precedence data =
     (if ocr_status data = Some ''processing'' then [Show stage1_label]
      else if ocr_status data = Some ''failed'' then [Finish (ocr_failed_label data)]
      else if ocr_status data = Some ''completed'' \<and> extraction_status data = Some ''processing''
      then [Show stage2_analyzing_label]
      else if extraction_status data = Some ''completed'' then [Finish (complete_label data)]
      else if extraction_status data = Some ''failed''
      then [Finish (extraction_failed_label data)]
      else if ocr_status data = Some ''completed''
            \<and> (\<not> truthy (extraction_status data) \<or> extraction_status data = Some ''pending'')
      then [Show stage2_starting_label]
      else [])"

definition is_finish :: "action \<Rightarrow> bool" where
  "is_finish a = (case a of Finish l \<Rightarrow> True | Show l \<Rightarrow> False)"

text \<open>The terminal stages: OCR failed, extraction completed, extraction failed.\<close>

definition terminal :: "status \<Rightarrow> bool" where
  "terminal data =
     (ocr_status data = Some ''failed'' \<or> extraction_status data = Some ''completed''
      \<or> extraction_status data = Some ''failed'')"

subsection \<open>The client's state and its events\<close>

type_synonym doc_id = nat
type_synonym timer_id = nat

text \<open>
  \<open>timers\<close> holds the intervals that are set and not cleared, each with the
  \<^verbatim>\<open>docId\<close> its callback closes over. A callback that has started its fetch and waits
  for the response is an entry of \<open>awaiting\<close>, with the \<^verbatim>\<open>interval\<close> and
  \<^verbatim>\<open>docId\<close> of its closure. \<open>anchors\<close> maps a document to the content of the
  \<^verbatim>\<open>.file-size\<close> element inside its \<^verbatim>\<open>upload-status-\<close> element, when that element
  is in the page (the upload handler creates the two together, and the poller replaces
  only the content of the inner one). \<open>dashboard_loads\<close> records the calls of
  \<^verbatim>\<open>loadDashboard\<close> that pollers make, each with the interval of the poller that
  made it, and \<open>console_errors\<close> counts the calls of \<^verbatim>\<open>console.error\<close>.
\<close>

record client =
  next_timer :: timer_id
  timers :: "timer_id \<rightharpoonup> doc_id"
  awaiting :: "(timer_id \<times> doc_id) list"
  activePollers :: "doc_id \<rightharpoonup> timer_id"
  anchors :: "doc_id \<rightharpoonup> template"
  dashboard_loads :: "timer_id list"
  console_errors :: nat

definition initial :: client where
  "initial = \<lparr>next_timer = 0, timers = Map.empty, awaiting = [], activePollers = Map.empty,
     anchors = Map.empty, dashboard_loads = [], console_errors = 0\<rparr>"

definition clearInterval :: "timer_id \<Rightarrow> client \<Rightarrow> client" where
  "clearInterval interval s = s\<lparr>timers := (timers s)(interval := None)\<rparr>"

text \<open>\<^verbatim>\<open>startPipelinePolling\<close>: set the interval, then register it.\<close>

definition startPipelinePolling :: "doc_id \<Rightarrow> client \<Rightarrow> client" where
  "startPipelinePolling docId s =
     (let interval = next_timer s;
          s = s\<lparr>next_timer := interval + 1, timers := (timers s)(interval \<mapsto> docId)\<rparr>
      in s\<lparr>activePollers := (activePollers s)(docId \<mapsto> interval)\<rparr>)"

definition perform :: "timer_id \<Rightarrow> doc_id \<Rightarrow> client \<Rightarrow> action \<Rightarrow> client" where
  "perform interval docId s a =
     (case a of
        Show l \<Rightarrow> s\<lparr>anchors := (anchors s)(docId \<mapsto> l)\<rparr>
      | Finish l \<Rightarrow>
          (let s = s\<lparr>anchors := (anchors s)(docId \<mapsto> l)\<rparr>;
               s = clearInterval interval s;
               s = s\<lparr>activePollers := (activePollers s)(docId := None)\<rparr>
           in s\<lparr>dashboard_loads := dashboard_loads s @ [interval]\<rparr>))"

text \<open>The callback from the point where the response has been parsed.\<close>

definition on_status :: "timer_id \<Rightarrow> doc_id \<Rightarrow> status \<Rightarrow> client \<Rightarrow> client" where
  "on_status interval docId data s =
     (case anchors s docId of
        None \<Rightarrow> clearInterval interval s
      | Some el \<Rightarrow> foldl (perform interval docId) s (tick_actions data))"

text \<open>
  The events of the page. \<open>Accept d\<close> is the upload handler's work for one accepted
  file: it adds the file's status element and starts its poller. \<open>ClearUploads\<close> is
  \<^verbatim>\<open>uploadedFiles.innerHTML = ''\<close>, which removes every status element; an upload is
  \<open>ClearUploads\<close> and then \<open>Accept\<close> for each file of the response. \<open>Tick t\<close> is
  interval \<open>t\<close> firing: the callback starts its fetch. \<open>Reply k data\<close> resumes the
  \<open>k\<close>-th waiting callback with a parsed response, \<open>FetchFailed k\<close> resumes it with a
  rejected fetch, which the callback's \<^verbatim>\<open>catch\<close> logs.
\<close>

datatype event =
  Accept doc_id | ClearUploads | Tick timer_id | Reply nat status | FetchFailed nat

definition upload_label :: template where
  \<open>upload_label = [Txt ''<span class="spinner"></span> OCR Processing...'']\<close>

definition remove_nth :: "nat \<Rightarrow> 'a list \<Rightarrow> 'a list" where
  "remove_nth k xs = take k xs @ drop (Suc k) xs"

definition fire :: "client \<Rightarrow> event \<Rightarrow> client" where
  "fire s e =
     (case e of
        Accept d \<Rightarrow> startPipelinePolling d (s\<lparr>anchors := (anchors s)(d \<mapsto> upload_label)\<rparr>)
      | ClearUploads \<Rightarrow> s\<lparr>anchors := Map.empty\<rparr>
      | Tick t \<Rightarrow>
          (case timers s t of
             None \<Rightarrow> s
           | Some d \<Rightarrow> s\<lparr>awaiting := awaiting s @ [(t, d)]\<rparr>)
      | Reply k data \<Rightarrow>
          (if k < length (awaiting s)
           then on_status (fst (awaiting s ! k)) (snd (awaiting s ! k)) data
                  (s\<lparr>awaiting := remove_nth k (awaiting s)\<rparr>)
           else s)
      | FetchFailed k \<Rightarrow>
          (if k < length (awaiting s)
           then s\<lparr>awaiting := remove_nth k (awaiting s), console_errors := console_errors s + 1\<rparr>
           else s))"

definition run :: "client \<Rightarrow> event list \<Rightarrow> client" where
  "run s es = foldl fire s es"

text \<open>
  A run in which interval \<open>t\<close> never fires while a callback of that interval still waits
  for its response: the requests of the poller with interval \<open>t\<close> do not overlap. The
  other pollers are not constrained.
\<close>

fun no_overlap :: "timer_id \<Rightarrow> client \<Rightarrow> event list \<Rightarrow> bool" where
  "no_overlap t s [] = True"
| "no_overlap t s (e # es) =
     ((e = Tick t \<longrightarrow> t \<notin> fst ` set (awaiting s)) \<and> no_overlap t (fire s e) es)"

text \<open>Status responses used to exercise the poller.\<close>

definition ocr_running_extraction_done :: status where
  "ocr_running_extraction_done =
     \<lparr>ocr_status = Some ''processing'', extraction_status = Some ''completed'',
      error_message = None, extraction_error = None, company_name = Some ''Acme Corp'',
      filename = Some ''acme.pdf''\<rparr>"

definition ocr_running_extraction_failed :: status where
  "ocr_running_extraction_failed =
     \<lparr>ocr_status = Some ''processing'', extraction_status = Some ''failed'',
      error_message = None, extraction_error = Some ''no tables found'', company_name = None,
      filename = Some ''acme.pdf''\<rparr>"

definition ocr_running :: status where
  "ocr_running =
     \<lparr>ocr_status = Some ''processing'', extraction_status = None,
      error_message = None, extraction_error = None, company_name = None,
      filename = Some ''acme.pdf''\<rparr>"

definition all_done :: status where
  "all_done =
     \<lparr>ocr_status = Some ''completed'', extraction_status = Some ''completed'',
      error_message = None, extraction_error = None, company_name = Some ''Acme Corp'',
      filename = Some ''acme.pdf''\<rparr>"

text \<open>
  A run in which the status element of document 7 is removed from the page before the
  first response of its poller arrives.
\<close>

definition abandoned :: client where
  "abandoned = run initial [Accept 7, ClearUploads, Tick 0, Reply 0 all_done]"

text \<open>
  What every run in which the requests of the poller with interval \<open>t\<close> do not overlap
  maintains for that poller: at most one of its callbacks is waiting, it has called
  \<^verbatim>\<open>loadDashboard\<close> at most once, once it has called it its interval is cleared and
  none of its callbacks is waiting, and an interval not yet handed out is nowhere in the
  state.
\<close>

definition poller_inv :: "timer_id \<Rightarrow> client \<Rightarrow> bool" where
  "poller_inv t s =
     (count_list (map fst (awaiting s)) t \<le> 1 \<and> count_list (dashboard_loads s) t \<le> 1
      \<and> (t \<in> set (dashboard_loads s) \<longrightarrow> timers s t = None \<and> t \<notin> fst ` set (awaiting s))
      \<and> (next_timer s \<le> t \<longrightarrow>
            timers s t = None \<and> t \<notin> fst ` set (awaiting s) \<and> t \<notin> set (dashboard_loads s)))"

section \<open>Properties of the rounding\<close>

declare shrink.simps [simp del]
declare grow.simps [simp del]

lemma powi_step: "(2::rat) powi (k + 1) = 2 powi k * 2"
  by (rule power_int_add_1) simp

lemma powi_pos: "0 < (2::rat) powi k"
  by simp

lemma shrink_spec:
  "shrink a q = (a', q') \<Longrightarrow>
     a' = a * 2 powi (q - q') \<and> q \<le> q' \<and> a' < 2 ^ 53 \<and> (q < q' \<longrightarrow> 2 ^ 52 \<le> a')"
proof (induction a q rule: shrink.induct)
  case (1 a q)
  show ?case
  proof (cases "2 ^ 53 \<le> a")
    case False
    with "1.prems" have "a' = a" and "q' = q"
      by (simp_all add: shrink.simps [of a q])
    with False show ?thesis
      by simp
  next
    case True
    then have rec: "shrink (a / 2) (q + 1) = (a', q')"
      using "1.prems" by (simp add: shrink.simps [of a q])
    note ih = "1.IH" [OF True rec]
    from ih have h1: "a' = a / 2 * 2 powi (q + 1 - q')" by (rule conjunct1)
    from ih have h2: "q + 1 \<le> q'" by blast
    from ih have h3: "a' < 2 ^ 53" by blast
    from ih have h4: "q + 1 < q' \<longrightarrow> 2 ^ 52 \<le> a'" by blast
    have "q + 1 - q' = (q - q') + 1"
      by simp
    then have "(2::rat) powi (q + 1 - q') = 2 powi (q - q') * 2"
      by (simp only: powi_step)
    then have e: "a / 2 * 2 powi (q + 1 - q') = a * 2 powi (q - q')"
      by simp
    have low: "2 ^ 52 \<le> a'"
    proof (cases "q + 1 < q'")
      case True
      with h4 show ?thesis by simp
    next
      case False
      with h2 have "q + 1 - q' = 0" by simp
      with h1 have "a' = a / 2" by simp
      with \<open>2 ^ 53 \<le> a\<close> show ?thesis by simp
    qed
    have "a' = a * 2 powi (q - q')"
      using h1 e by (rule trans)
    moreover have "q \<le> q'"
      using h2 by simp
    ultimately show ?thesis
      using h3 low by blast
  qed
qed

lemma grow_spec:
  "grow a q = (a', q') \<Longrightarrow>
     a' = a * 2 powi (q - q') \<and> q' \<le> q \<and> (- 1074 \<le> q \<longrightarrow> - 1074 \<le> q')
     \<and> (2 ^ 52 \<le> a' \<or> q' \<le> - 1074) \<and> (a < 2 ^ 53 \<longrightarrow> a' < 2 ^ 53)"
proof (induction a q rule: grow.induct)
  case (1 a q)
  show ?case
  proof (cases "a < 2 ^ 52 \<and> - 1074 < q")
    case False
    then have "grow a q = (a, q)"
      by (subst grow.simps) auto
    with "1.prems" have eq: "a' = a" "q' = q"
      by simp_all
    from False have "2 ^ 52 \<le> a \<or> q \<le> - 1074"
      by auto
    with eq show ?thesis
      by simp
  next
    case True
    then have rec: "grow (a * 2) (q - 1) = (a', q')"
      using "1.prems" by (simp add: grow.simps [of a q])
    note ih = "1.IH" [OF True rec]
    from ih have h1: "a' = a * 2 * 2 powi (q - 1 - q')" by (rule conjunct1)
    from ih have h2: "q' \<le> q - 1" by blast
    from ih have h3: "- 1074 \<le> q - 1 \<longrightarrow> - 1074 \<le> q'" by blast
    from ih have h4: "2 ^ 52 \<le> a' \<or> q' \<le> - 1074" by blast
    from ih have h5: "a * 2 < 2 ^ 53 \<longrightarrow> a' < 2 ^ 53" by blast
    have "q - q' = (q - 1 - q') + 1"
      by simp
    then have "(2::rat) powi (q - q') = 2 powi (q - 1 - q') * 2"
      by (simp only: powi_step)
    then have e: "a * 2 * 2 powi (q - 1 - q') = a * 2 powi (q - q')"
      by simp
    have c1: "a' = a * 2 powi (q - q')"
      using h1 e by (rule trans)
    have c2: "q' \<le> q"
      using h2 by simp
    have c3: "- 1074 \<le> q \<longrightarrow> - 1074 \<le> q'"
      using h3 True by simp
    have "a * 2 < 2 ^ 53"
      using True by simp
    with h5 have c5: "a < 2 ^ 53 \<longrightarrow> a' < 2 ^ 53"
      by simp
    from c1 c2 c3 h4 c5 show ?thesis
      by blast
  qed
qed

text \<open>
  What the two loops of the rounding reach: the magnitude scaled by a power of two into
  the range of the significand, or down to the least exponent.
\<close>

lemma normal_form:
  assumes "0 < x" and "grow (fst (shrink x 0)) (snd (shrink x 0)) = (a, q)"
  shows "a = x * 2 powi (- q) \<and> - 1074 \<le> q \<and> a < 2 ^ 53 \<and> (2 ^ 52 \<le> a \<or> q = - 1074)"
proof -
  obtain a1 q1 where s: "shrink x 0 = (a1, q1)"
    by (cases "shrink x 0")
  note ss = shrink_spec [OF s]
  from ss have s1: "a1 = x * 2 powi (0 - q1)" by (rule conjunct1)
  from ss have s2: "0 \<le> q1" by blast
  from ss have s3: "a1 < 2 ^ 53" by blast
  from assms(2) s have g: "grow a1 q1 = (a, q)"
    by simp
  note gs = grow_spec [OF g]
  from gs have g1: "a = a1 * 2 powi (q1 - q)" by (rule conjunct1)
  from gs s2 have g2: "- 1074 \<le> q" by simp
  from gs have g3: "2 ^ 52 \<le> a \<or> q \<le> - 1074" by blast
  from gs s3 have g4: "a < 2 ^ 53" by blast
  have "(2::rat) powi (0 - q1) * 2 powi (q1 - q) = 2 powi ((0 - q1) + (q1 - q))"
    by (rule power_int_add [symmetric]) simp
  then have "(2::rat) powi (0 - q1) * 2 powi (q1 - q) = 2 powi (- q)"
    by simp
  then have "x * 2 powi (0 - q1) * 2 powi (q1 - q) = x * 2 powi (- q)"
    by (simp only: mult.assoc)
  with g1 s1 have c1: "a = x * 2 powi (- q)"
    by simp
  from g2 g3 have c4: "2 ^ 52 \<le> a \<or> q = - 1074"
    by auto
  from c1 g2 g4 c4 show ?thesis
    by blast
qed



lemma rhe_of_int: "round_half_even (of_int k) = k"
  by (simp add: round_half_even_def)

lemma rhe_unique:
  assumes "\<bar>x - of_int m\<bar> < 1 / 2"
  shows "round_half_even x = m"
proof -
  have f: "of_int \<lfloor>x\<rfloor> \<le> x" "x < of_int \<lfloor>x\<rfloor> + 1"
    by linarith+
  from assms have "x - 1 / 2 < of_int m" "of_int m < x + 1 / 2"
    by linarith+
  with f have "(of_int m :: rat) < of_int \<lfloor>x\<rfloor> + 2" "(of_int \<lfloor>x\<rfloor> :: rat) < of_int m + 1"
    by linarith+
  then have "m < \<lfloor>x\<rfloor> + 2" "\<lfloor>x\<rfloor> < m + 1"
    by (simp_all only: of_int_less_iff [where 'a = rat, symmetric] of_int_add of_int_numeral of_int_1)
  then have c: "m = \<lfloor>x\<rfloor> \<or> m = \<lfloor>x\<rfloor> + 1"
    by linarith
  show ?thesis
  proof (cases "m = \<lfloor>x\<rfloor>")
    case True
    with \<open>x - 1 / 2 < of_int m\<close> have "x - of_int \<lfloor>x\<rfloor> < 1 / 2"
      by simp
    with True show ?thesis
      by (simp add: round_half_even_def Let_def)
  next
    case False
    with c have m: "m = \<lfloor>x\<rfloor> + 1"
      by simp
    with \<open>of_int m < x + 1 / 2\<close> have "1 / 2 < x - of_int \<lfloor>x\<rfloor>"
      by simp
    with m show ?thesis
      by (simp add: round_half_even_def Let_def)
  qed
qed

lemma powi_mono: "k \<le> l \<Longrightarrow> (2::rat) powi k \<le> 2 powi l"
  by (rule power_int_increasing) simp_all

lemma powi_cancel: "(2::rat) powi (- q) * 2 powi q = 1"
proof -
  have "(2::rat) powi (- q) * 2 powi q = 2 powi (- q + q)"
    by (rule power_int_add [symmetric]) simp
  then show ?thesis by simp
qed

lemma normal_unique:
  assumes "0 < x" and "2 ^ 52 \<le> x * 2 powi (- q)" and "x * 2 powi (- q) < 2 ^ 53"
    and "- 1074 \<le> q"
  shows "grow (fst (shrink x 0)) (snd (shrink x 0)) = (x * 2 powi (- q), q)"
proof -
  obtain a q0 where g: "grow (fst (shrink x 0)) (snd (shrink x 0)) = (a, q0)"
    by (cases "grow (fst (shrink x 0)) (snd (shrink x 0))")
  note nf = normal_form [OF assms(1) g]
  from nf have a: "a = x * 2 powi (- q0)" by (rule conjunct1)
  from nf have q0: "- 1074 \<le> q0" by blast
  from nf have hi: "a < 2 ^ 53" by blast
  from nf have lo: "2 ^ 52 \<le> a \<or> q0 = - 1074" by blast
  have "q0 = q"
  proof (rule ccontr)
    assume ne: "q0 \<noteq> q"
    show False
    proof (cases "q0 < q")
      case True
      then have "- q + 1 \<le> - q0" by simp
      then have "(2::rat) powi (- q + 1) \<le> 2 powi (- q0)" by (rule powi_mono)
      then have "(2::rat) powi (- q) * 2 \<le> 2 powi (- q0)" by (simp only: powi_step)
      then have "x * (2 powi (- q) * 2) \<le> x * 2 powi (- q0)"
        using assms(1) by (simp only: mult_le_cancel_left_pos)
      with assms(2) a hi show False by simp
    next
      case False
      with ne have lt: "q < q0" by simp
      with assms(4) have "q0 \<noteq> - 1074" by simp
      with lo have l: "2 ^ 52 \<le> a" by simp
      from lt have "- q0 + 1 \<le> - q" by simp
      then have "(2::rat) powi (- q0 + 1) \<le> 2 powi (- q)" by (rule powi_mono)
      then have "(2::rat) powi (- q0) * 2 \<le> 2 powi (- q)" by (simp only: powi_step)
      then have "x * (2 powi (- q0) * 2) \<le> x * 2 powi (- q)"
        using assms(1) by (simp only: mult_le_cancel_left_pos)
      with assms(3) a l show False by simp
    qed
  qed
  with g a show ?thesis by simp
qed

lemma to_double_eval:
  assumes "0 < x" and "2 ^ 52 \<le> x * 2 powi (- q)" and "x * 2 powi (- q) < 2 ^ 53"
    and "- 1074 \<le> q" and "q \<le> 970" and "\<bar>x * 2 powi (- q) - of_int m\<bar> < 1 / 2"
  shows "to_double x = Finite (of_int m * 2 powi q)"
proof -
  have n: "grow (fst (shrink \<bar>x\<bar> 0)) (snd (shrink \<bar>x\<bar> 0)) = (x * 2 powi (- q), q)"
    using normal_unique [OF assms(1-4)] assms(1) by simp
  have r: "round_half_even (x * 2 powi (- q)) = m"
    using assms(6) by (rule rhe_unique)
  from assms(3,6) have "of_int m < (2::rat) ^ 53 + 1 / 2"
    by linarith
  then have "(of_int m :: rat) < of_int (2 ^ 53 + 1)"
    by simp
  then have "m < 2 ^ 53 + 1"
    by (simp only: of_int_less_iff)
  then have "(of_int m :: rat) \<le> 2 ^ 53"
    by simp
  moreover have "(2::rat) powi q \<le> 2 powi 970"
    using assms(5) by (rule powi_mono)
  moreover have "0 \<le> (2::rat) powi q"
    by simp
  ultimately have "of_int m * 2 powi q \<le> (2::rat) ^ 53 * 2 powi 970"
    by (intro mult_mono) simp_all
  then have small: "of_int m * 2 powi q < (2::rat) ^ 1024"
    by simp
  show ?thesis
    using assms(1) n r small
    by (simp add: to_double_def split_beta Let_def case_prod_beta)
qed

lemma to_double_int:
  assumes "\<bar>n\<bar> < 2 ^ 53"
  shows "to_double (of_int n) = Finite (of_int n)"
proof (cases "n = 0")
  case True
  then show ?thesis by (simp add: to_double_def)
next
  case False
  define x :: rat where "x = \<bar>of_int n\<bar>"
  have xpos: "0 < x" using False by (simp add: x_def)
  have xi: "x = of_int \<bar>n\<bar>" by (simp add: x_def)
  have "x < 2 ^ 53"
  proof -
    have "(of_int \<bar>n\<bar> :: rat) < of_int (2 ^ 53)"
      using assms by (simp only: of_int_less_iff)
    then show ?thesis by (simp add: xi)
  qed
  then have s: "shrink x 0 = (x, 0)"
    by (subst shrink.simps) simp
  obtain a q where g: "grow x 0 = (a, q)"
    by (cases "grow x 0")
  note gs = grow_spec [OF g]
  from gs have a: "a = x * 2 powi (0 - q)" by (rule conjunct1)
  from gs have q: "q \<le> 0" by blast
  have p: "(2::rat) powi (0 - q) = of_int (2 ^ nat (- q))"
    using q by (simp add: power_int_def)
  have "a = of_int (\<bar>n\<bar> * 2 ^ nat (- q))"
    using a p xi by simp
  then have r: "round_half_even a = \<bar>n\<bar> * 2 ^ nat (- q)"
    by (simp only: rhe_of_int)
  have "of_int (round_half_even a) * 2 powi q = x * (2 powi (- q) * 2 powi q)"
    using r a p xi by (simp add: power_int_def)
  then have v: "of_int (round_half_even a) * 2 powi q = x"
    by (simp only: powi_cancel mult_1_right)
  have small: "\<not> 2 ^ 1024 \<le> x"
    using \<open>x < 2 ^ 53\<close> by simp
  have nz: "(of_int n :: rat) \<noteq> 0"
    using False by simp
  have sg: "(if 0 < (of_int n :: rat) then x else - x) = of_int n"
    by (simp add: x_def)
  have "to_double (of_int n) = Finite (if 0 < (of_int n :: rat) then x else - x)"
    using v s g small nz by (simp add: to_double_def x_def [symmetric] Let_def)
  with sg show ?thesis
    by simp
qed

lemma to_double_zero: "to_double 0 = Finite 0"
  by (simp add: to_double_def)

lemma to_double_numeral:
  "numeral k < (2::int) ^ 53 \<Longrightarrow> to_double (numeral k) = Finite (numeral k)"
  using to_double_int [of "numeral k"] by simp

lemma to_double_neg_numeral:
  "numeral k < (2::int) ^ 53 \<Longrightarrow> to_double (- numeral k) = Finite (- numeral k)"
  using to_double_int [of "- numeral k"] by simp

text \<open>
  The doubles of the figures used below, of their differences and of their products with
  the double of 0.15, each from the exponent and the significand that the rounding finds.
\<close>

lemma double_015: "to_double (3 / 20) = Finite (5404319552844595 / 36028797018963968)"
  using to_double_eval [of "3 / 20" "- 55" 5404319552844595] by simp

lemma double_115_46: "to_double (5773 / 50) = Finite (8124775202753085 / 70368744177664)"
  using to_double_eval [of "5773 / 50" "- 46" 8124775202753085] by simp

lemma double_100_4: "to_double (502 / 5) = Finite (3532510957718733 / 35184372088832)"
  using to_double_eval [of "502 / 5" "- 46" 7065021915437466] by simp

lemma double_514_8: "to_double (2574 / 5) = Finite (2264114343916339 / 4398046511104)"
  using to_double_eval [of "2574 / 5" "- 43" 4528228687832678] by simp

lemma double_485_2: "to_double (2426 / 5) = Finite (8535728668750643 / 17592186044416)"
  using to_double_eval [of "2426 / 5" "- 44" 8535728668750643] by simp

lemma double_depreciation_gap: "to_double (1059753287315619 / 70368744177664) = Finite (1059753287315619 / 70368744177664)"
  using to_double_eval [of "1059753287315619 / 70368744177664" "- 49" 8478026298524952] by simp

lemma double_ebitda_share: "to_double (19090818039437135160902069298135 / 1267650600228229401496703205376) = Finite (8478026298524959 / 562949953421312)"
  using to_double_eval [of "19090818039437135160902069298135 / 1267650600228229401496703205376" "- 49" 8478026298524959] by simp

lemma double_income: "to_double (2133932167187661 / 4398046511104) = Finite (2133932167187661 / 4398046511104)"
  using to_double_eval [of "2133932167187661 / 4398046511104" "- 44" 8535728668750644] by simp

lemma double_150: "to_double (675539944105574375 / 4503599627370496) = Finite (150)"
  using to_double_eval [of "675539944105574375 / 4503599627370496" "- 45" 5277655813324800] by simp

lemmas double_evals = to_double_zero to_double_numeral to_double_neg_numeral double_015
  double_115_46 double_100_4 double_514_8 double_485_2 double_depreciation_gap
  double_ebitda_share double_income double_150



section \<open>Properties of the integrity analyzer\<close>

declare check2_loop.simps [simp del]
declare check3_loop.simps [simp del]
declare decimal.simps [simp del]

text \<open>Each loop runs its body at the positions 0, 1 and 2, in that order.\<close>

lemma check2_loop_0:
  "check2_loop gp sga ebitda 0 ws =
     ws @ check2_body gp sga ebitda 0 @ check2_body gp sga ebitda 1 @ check2_body gp sga ebitda 2"
proof -
  have "check2_loop gp sga ebitda 3 xs = xs" for xs
    by (subst check2_loop.simps) (simp add: eval_nat_numeral)
  then have "check2_loop gp sga ebitda 2 xs = xs @ check2_body gp sga ebitda 2" for xs
    by (subst check2_loop.simps) (simp add: eval_nat_numeral)
  then have "check2_loop gp sga ebitda 1 xs =
      xs @ check2_body gp sga ebitda 1 @ check2_body gp sga ebitda 2" for xs
    by (subst check2_loop.simps) (simp add: eval_nat_numeral)
  then show ?thesis
    by (subst check2_loop.simps) (simp add: eval_nat_numeral)
qed

lemma check3_loop_0:
  "check3_loop dep ebitda 0 ws =
     ws @ check3_body dep ebitda 0 @ check3_body dep ebitda 1 @ check3_body dep ebitda 2"
proof -
  have "check3_loop dep ebitda 3 xs = xs" for xs
    by (subst check3_loop.simps) (simp add: eval_nat_numeral)
  then have "check3_loop dep ebitda 2 xs = xs @ check3_body dep ebitda 2" for xs
    by (subst check3_loop.simps) (simp add: eval_nat_numeral)
  then have "check3_loop dep ebitda 1 xs =
      xs @ check3_body dep ebitda 1 @ check3_body dep ebitda 2" for xs
    by (subst check3_loop.simps) (simp add: eval_nat_numeral)
  then show ?thesis
    by (subst check3_loop.simps) (simp add: eval_nat_numeral)
qed

text \<open>Check 1 throws exactly on a revenue field that is not an array.\<close>

lemma check1_throws: "net_revenue_hist f = NotArr \<Longrightarrow> check1 f = Inl TypeError"
  by (simp add: check1_def nullRevCount_def or_array_def)

lemma check1_returns:
  "net_revenue_hist f \<noteq> NotArr \<Longrightarrow> \<exists>r. check1 f = Inr r \<and> length r \<le> 1"
  by (cases "net_revenue_hist f") (simp_all add: check1_def nullRevCount_def or_array_def)

lemma rule1_warnings_eq: "check1 (financials_of ext) = Inr r \<Longrightarrow> rule1_warnings ext = r"
  by (simp add: rule1_warnings_def)

lemma rule1_warnings_length: "length (rule1_warnings ext) \<le> 1"
  by (cases "net_revenue_hist (financials_of ext)")
    (simp_all add: rule1_warnings_def check1_def nullRevCount_def or_array_def)

lemma rule1_warnings_level: "w \<in> set (rule1_warnings ext) \<Longrightarrow> level w = Error"
  by (cases "net_revenue_hist (financials_of ext)")
    (auto simp add: rule1_warnings_def check1_def nullRevCount_def or_array_def
      split: if_splits)

lemma renderIntegrityWarnings_throws:
  "net_revenue_hist (financials_of ext) = NotArr \<Longrightarrow> renderIntegrityWarnings ext = Inl TypeError"
  by (simp add: renderIntegrityWarnings_def Let_def check1_throws)

lemma renderIntegrityWarnings_returns:
  assumes "net_revenue_hist (financials_of ext) \<noteq> NotArr"
  shows "renderIntegrityWarnings ext =
     Inr (rule1_warnings ext
     @ check2_body (or_array (gross_profit_hist (financials_of ext)))
         (or_array (sga_hist (financials_of ext))) (or_array (adj_ebitda_hist (financials_of ext))) 0
     @ check2_body (or_array (gross_profit_hist (financials_of ext)))
         (or_array (sga_hist (financials_of ext))) (or_array (adj_ebitda_hist (financials_of ext))) 1
     @ check2_body (or_array (gross_profit_hist (financials_of ext)))
         (or_array (sga_hist (financials_of ext))) (or_array (adj_ebitda_hist (financials_of ext))) 2
     @ check3_body (or_array (depreciation_hist (financials_of ext)))
         (or_array (adj_ebitda_hist (financials_of ext))) 0
     @ check3_body (or_array (depreciation_hist (financials_of ext)))
         (or_array (adj_ebitda_hist (financials_of ext))) 1
     @ check3_body (or_array (depreciation_hist (financials_of ext)))
         (or_array (adj_ebitda_hist (financials_of ext))) 2
     @ check4 ext)"
proof -
  from check1_returns [OF assms] obtain r where r: "check1 (financials_of ext) = Inr r"
    by blast
  then have "rule1_warnings ext = r"
    by (rule rule1_warnings_eq)
  with r show ?thesis
    by (simp only: renderIntegrityWarnings_def Let_def check2_loop_0 check3_loop_0 append_assoc
        sum.case)
qed

lemma renderIntegrityWarnings_shape:
  assumes "renderIntegrityWarnings ext = Inr ws"
  shows "ws = rule1_warnings ext @ rule2_warnings ext @ rule3_warnings ext @ check4 ext"
proof -
  have "net_revenue_hist (financials_of ext) \<noteq> NotArr"
    using assms renderIntegrityWarnings_throws [of ext] by auto
  from renderIntegrityWarnings_returns [OF this] assms show ?thesis
    by (simp add: rule2_warnings_def rule3_warnings_def)
qed












lemma check2_body_length: "length (check2_body gp sga ebitda i) \<le> 1"
  by (simp add: check2_body_def Let_def split: jsnum.splits)

lemma check3_body_length: "length (check3_body dep ebitda i) \<le> 1"
  by (simp add: check3_body_def split: jsnum.splits)

lemma check2_body_level: "w \<in> set (check2_body gp sga ebitda i) \<Longrightarrow> level w = Error"
  by (auto simp add: check2_body_def Let_def split: jsnum.splits if_splits)

lemma check3_body_level: "w \<in> set (check3_body dep ebitda i) \<Longrightarrow> level w = Error"
  by (auto simp add: check3_body_def split: jsnum.splits if_splits)

lemma check4_level: "w \<in> set (check4 ext) \<Longrightarrow> level w = Info"
  by (auto simp add: check4_def Let_def split: if_splits)

text \<open>The definitions that an evaluation of the analyzer on a given extraction unfolds.\<close>

lemmas analyzer_defs = renderIntegrityWarnings_def check1_def nullRevCount_def check2_loop_0
  check3_loop_0 check2_body_def check3_body_def check4_def financials_of_def no_financials_def
  or_array_def or_empty_def item_def Let_def

text \<open>
  Check 1 counts over the whole revenue array; on an array of at most three entries that
  is the count over the first three positions.
\<close>

lemma nullRevCount_window:
  assumes "net_revenue_hist f = Arr revHist" and "length revHist \<le> 3"
  shows "nullRevCount f = Inr (length (filter (\<lambda>v. v = Null) (take 3 revHist)))"
  using assms by (simp add: nullRevCount_def or_array_def)

text \<open>
  C3, at an input on which the code departs from the claim. The revenue array has four
  entries, all \<^verbatim>\<open>null\<close>: three of the first three positions are null, and the code
  counts four, so that its one warning reads \<^verbatim>\<open>Revenue missing for 4 of 3\<close>. The
  count is taken over the whole array, where checks 2 and 3 stop after position 2.
\<close>

theorem revenue_count_beyond_window:
  "renderIntegrityWarnings
     \<lparr>financials = Some \<lparr>net_revenue_hist = Arr [Null, Null, Null, Null],
        gross_profit_hist = Absent, sga_hist = Absent, adj_ebitda_hist = Absent,
        depreciation_hist = Absent\<rparr>,
      corrections_applied = None, derivations_applied = None\<rparr>
   = Inr [\<lparr>level = Error, message =
        [Txt ''Revenue missing for '', Dec 4,
         Txt '' of 3 historical year(s). Margins and growth rates cannot be calculated.'']\<rparr>]
   \<and> length (filter (\<lambda>v. v = Null) (take 3 [Null, Null, Null, Null])) = 3"
  by (simp add: analyzer_defs)










text \<open>
  C10: the output is the warnings of check 1, then those of check 2, then those of
  check 3, then those of check 4. There are at most 1, 3, 3 and 1 of them, hence at most
  8 in all; those of the first three checks are of error level and that of check 4 is
  of info level. (The analyzer has an output unless the revenue field is not an array.)
\<close>

theorem warning_sequence_shape:
  "(net_revenue_hist (financials_of ext) \<noteq> NotArr \<longrightarrow>
      renderIntegrityWarnings ext =
        Inr (rule1_warnings ext @ rule2_warnings ext @ rule3_warnings ext @ check4 ext))
   \<and> (renderIntegrityWarnings ext = Inr ws \<longrightarrow>
        ws = rule1_warnings ext @ rule2_warnings ext @ rule3_warnings ext @ check4 ext
        \<and> length ws \<le> 8)
   \<and> length (rule1_warnings ext) \<le> 1
   \<and> length (rule2_warnings ext) \<le> 3
   \<and> length (rule3_warnings ext) \<le> 3
   \<and> length (check4 ext) \<le> 1
   \<and> (\<forall>w \<in> set (rule1_warnings ext @ rule2_warnings ext @ rule3_warnings ext).
         level w = Error)
   \<and> (\<forall>w \<in> set (check4 ext). level w = Info)"
proof -
  let ?gp = "or_array (gross_profit_hist (financials_of ext))"
  let ?sga = "or_array (sga_hist (financials_of ext))"
  let ?eb = "or_array (adj_ebitda_hist (financials_of ext))"
  let ?dep = "or_array (depreciation_hist (financials_of ext))"
  have ret: "renderIntegrityWarnings ext =
        Inr (rule1_warnings ext @ rule2_warnings ext @ rule3_warnings ext @ check4 ext)"
    if "net_revenue_hist (financials_of ext) \<noteq> NotArr"
    using renderIntegrityWarnings_returns [OF that]
    by (simp add: rule2_warnings_def rule3_warnings_def)
  have l1: "length (rule1_warnings ext) \<le> 1"
    by (rule rule1_warnings_length)
  have l2: "length (rule2_warnings ext) \<le> 3"
    using check2_body_length [of ?gp ?sga ?eb 0] check2_body_length [of ?gp ?sga ?eb 1]
      check2_body_length [of ?gp ?sga ?eb 2]
    by (simp add: rule2_warnings_def)
  have l3: "length (rule3_warnings ext) \<le> 3"
    using check3_body_length [of ?dep ?eb 0] check3_body_length [of ?dep ?eb 1]
      check3_body_length [of ?dep ?eb 2]
    by (simp add: rule3_warnings_def)
  have l4: "length (check4 ext) \<le> 1"
    by (simp add: check4_def Let_def)
  have shape: "ws = rule1_warnings ext @ rule2_warnings ext @ rule3_warnings ext @ check4 ext
        \<and> length ws \<le> 8"
    if "renderIntegrityWarnings ext = Inr ws"
    using renderIntegrityWarnings_shape [OF that] l1 l2 l3 l4 by simp
  have e: "\<forall>w \<in> set (rule1_warnings ext @ rule2_warnings ext @ rule3_warnings ext).
      level w = Error"
    by (auto simp add: rule2_warnings_def rule3_warnings_def
        dest: rule1_warnings_level check2_body_level check3_body_level)
  have i: "\<forall>w \<in> set (check4 ext). level w = Info"
    by (auto dest: check4_level)
  from ret shape l1 l2 l3 l4 e i show ?thesis
    by blast
qed

theorem warning_sequence_shape_witness:
  "renderIntegrityWarnings scenario =
     Inr (rule1_warnings scenario @ rule2_warnings scenario @ rule3_warnings scenario
       @ check4 scenario)
   \<and> length (rule1_warnings scenario) = 1
   \<and> length (rule2_warnings scenario) = 1
   \<and> length (rule3_warnings scenario) = 1
   \<and> length (check4 scenario) = 1
   \<and> map level (rule1_warnings scenario @ rule2_warnings scenario @ rule3_warnings scenario
       @ check4 scenario) = [Error, Error, Error, Info]"
proof -
  have ok: "net_revenue_hist (financials_of scenario) \<noteq> NotArr"
    by (simp add: scenario_def financials_of_def)
  have sh: "renderIntegrityWarnings scenario =
     Inr (rule1_warnings scenario @ rule2_warnings scenario @ rule3_warnings scenario
       @ check4 scenario)"
    using ok by (rule mp [OF conjunct1 [OF warning_sequence_shape [of scenario "[]"]]])
  have m1: "map level (rule1_warnings scenario) = [Error]"
    by (simp add: scenario_def rule1_warnings_def analyzer_defs)
  have m2: "map level (rule2_warnings scenario) = [Error]"
    by (simp add: scenario_def rule2_warnings_def analyzer_defs double_evals)
  have m3: "map level (rule3_warnings scenario) = [Error]"
    by (simp add: scenario_def rule3_warnings_def analyzer_defs double_evals)
  have m4: "map level (check4 scenario) = [Info]"
    by (simp add: scenario_def or_empty_def check4_def Let_def)
  have l1: "length (rule1_warnings scenario) = 1"
    using arg_cong [OF m1, of length] by simp
  have l2: "length (rule2_warnings scenario) = 1"
    using arg_cong [OF m2, of length] by simp
  have l3: "length (rule3_warnings scenario) = 1"
    using arg_cong [OF m3, of length] by simp
  have l4: "length (check4 scenario) = 1"
    using arg_cong [OF m4, of length] by simp
  have m: "map level (rule1_warnings scenario @ rule2_warnings scenario @ rule3_warnings scenario
       @ check4 scenario) = [Error, Error, Error, Info]"
    by (simp only: map_append m1 m2 m3 m4 append.simps)
  from sh l1 l2 l3 l4 m show ?thesis
    by (intro conjI)
qed

section \<open>Properties of the provenance rendering\<close>

lemma tooltips_nonempty: "map_of tooltips tag = Some t \<Longrightarrow> t \<noteq> []"
  by (auto simp add: tooltips_def generic_tooltip_def split: if_splits)

lemma derived_truthy:
  assumes "prefix ''derived'' tag"
  shows "truthy (Some tag) \<and> tag \<noteq> ''direct''"
  using assms by (auto simp add: truthy_def prefix_def)

lemma decimal_small: "n < 10 \<Longrightarrow> decimal n = [digit n]"
  by (subst decimal.simps) simp

text \<open>
  C6, as the code has it. A CapEx cell (\<^verbatim>\<open>capexCell\<close>) with a number renders plain
  when the tag is absent, empty or \<^verbatim>\<open>direct\<close>, and every tag that begins with
  \<^verbatim>\<open>derived\<close> renders with the \<^verbatim>\<open>(est.)\<close> badge whose tooltip is the table's entry
  for the tag, or the generic text when the table of five entries has none. Any other
  money cell (\<^verbatim>\<open>moneyCell\<close>) with a number carries a bare \<^verbatim>\<open>(est.)\<close> tag, without
  tooltip, exactly when its tag is \<^verbatim>\<open>derived\<close> itself. A \<^verbatim>\<open>null\<close> value renders
  as \<^verbatim>\<open>--\<close> whatever its tag.
\<close>

theorem provenance_rendering:
  "(\<not> truthy source \<or> source = Some ''direct'' \<longrightarrow> capexCell (Num v) source = td v [Money v])
   \<and> (prefix ''derived'' tag \<longrightarrow>
        capexCell (Num v) (Some tag) = td v [Money v, Txt (est_badge (getCapexMethodTooltip tag))])
   \<and> (map_of tooltips tag = Some t \<longrightarrow> getCapexMethodTooltip tag = t)
   \<and> (map_of tooltips tag = None \<longrightarrow> getCapexMethodTooltip tag = generic_tooltip)
   \<and> length tooltips = 5 \<and> distinct (map fst tooltips)
   \<and> moneyCell (Num v) source =
        td v [Money v, Txt (if source = Some ''derived'' then est_tag else [])]
   \<and> capexCell Null source = [Txt ''<td>--</td>'']
   \<and> moneyCell Null source = [Txt ''<td>--</td>'']"
proof -
  have a: "capexCell (Num v) source = td v [Money v]"
    if "\<not> truthy source \<or> source = Some ''direct''"
    using that by (auto simp add: capexCell_def td_def)
  have b: "capexCell (Num v) (Some tag) =
      td v [Money v, Txt (est_badge (getCapexMethodTooltip tag))]"
    if "prefix ''derived'' tag"
    using derived_truthy [OF that] by (simp add: capexCell_def td_def est_badge_def)
  have c: "getCapexMethodTooltip tag = t" if "map_of tooltips tag = Some t"
    using that tooltips_nonempty [OF that]
    by (simp add: getCapexMethodTooltip_def js_or_def truthy_def)
  have d: "getCapexMethodTooltip tag = generic_tooltip" if "map_of tooltips tag = None"
    using that by (simp add: getCapexMethodTooltip_def js_or_def truthy_def generic_tooltip_def)
  have e: "length tooltips = 5 \<and> distinct (map fst tooltips)"
    by (simp add: tooltips_def)
  have f: "moneyCell (Num v) source =
        td v [Money v, Txt (if source = Some ''derived'' then est_tag else [])]"
    by (simp add: moneyCell_def td_def est_tag_def)
  have g: "capexCell Null source = [Txt ''<td>--</td>'']
      \<and> moneyCell Null source = [Txt ''<td>--</td>'']"
    by (simp add: capexCell_def moneyCell_def)
  from a b c d e f g show ?thesis by blast
qed

theorem provenance_rendering_witness:
  "capexCell (Num 5) None = [Txt ''<td>'', Money 5, Txt ''</td>'']
   \<and> prefix ''derived'' ''derived:flat_last_known''
   \<and> capexCell (Num 5) (Some ''derived:flat_last_known'') =
       [Txt ''<td>'', Money 5,
        Txt (est_badge ''Estimated using most recent known CapEx value (flat)''), Txt ''</td>'']
   \<and> prefix ''derived'' ''derived:unheard_of''
   \<and> capexCell (Num 5) (Some ''derived:unheard_of'') =
       [Txt ''<td>'', Money 5, Txt (est_badge generic_tooltip), Txt ''</td>'']"
proof -
  note known = provenance_rendering [of None 5 "''derived:flat_last_known''"
      "''Estimated using most recent known CapEx value (flat)''"]
  note unknown = provenance_rendering [of None 5 "''derived:unheard_of''" "[]"]
  have p1: "prefix ''derived'' ''derived:flat_last_known''"
    by (simp add: prefix_def)
  have p2: "prefix ''derived'' ''derived:unheard_of''"
    by (simp add: prefix_def)
  have m1: "map_of tooltips ''derived:flat_last_known'' =
      Some ''Estimated using most recent known CapEx value (flat)''"
    by (simp add: tooltips_def)
  have m2: "map_of tooltips ''derived:unheard_of'' = None"
    by (simp add: tooltips_def)
  have n: "\<not> truthy None \<or> None = Some ''direct''"
    by (simp add: truthy_def)
  have a: "capexCell (Num 5) None = td 5 [Money 5]"
    using n by (rule mp [OF conjunct1 [OF known]])
  have b: "capexCell (Num 5) (Some ''derived:flat_last_known'') =
      td 5 [Money 5, Txt (est_badge (getCapexMethodTooltip ''derived:flat_last_known''))]"
    using p1 by (rule mp [OF conjunct1 [OF conjunct2 [OF known]]])
  have c: "getCapexMethodTooltip ''derived:flat_last_known'' =
      ''Estimated using most recent known CapEx value (flat)''"
    using m1 by (rule mp [OF conjunct1 [OF conjunct2 [OF conjunct2 [OF known]]]])
  have d: "capexCell (Num 5) (Some ''derived:unheard_of'') =
      td 5 [Money 5, Txt (est_badge (getCapexMethodTooltip ''derived:unheard_of''))]"
    using p2 by (rule mp [OF conjunct1 [OF conjunct2 [OF unknown]]])
  have e: "getCapexMethodTooltip ''derived:unheard_of'' = generic_tooltip"
    using m2 by (rule mp [OF conjunct1 [OF conjunct2 [OF conjunct2 [OF conjunct2 [OF unknown]]]]])
  have t: "td 5 inner = Txt ''<td>'' # inner @ [Txt ''</td>'']" for inner
    by (simp add: td_def)
  from p1 p2 show ?thesis
    by (simp only: a b c d e t append.simps simp_thms)
qed

text \<open>
  C6 as stated fails on \<^verbatim>\<open>moneyCell\<close>: the tag \<^verbatim>\<open>derived:flat_last_known\<close> begins
  with \<^verbatim>\<open>derived\<close>, and the cell renders without any \<^verbatim>\<open>(est.)\<close> marker, as it does
  for \<^verbatim>\<open>direct\<close>.
\<close>

theorem money_cell_derived_counterexample:
  "prefix ''derived'' ''derived:flat_last_known''
   \<and> moneyCell (Num 5) (Some ''derived:flat_last_known'') =
       [Txt ''<td>'', Money 5, Txt [], Txt ''</td>'']
   \<and> moneyCell (Num 5) (Some ''derived:flat_last_known'') = moneyCell (Num 5) (Some ''direct'')"
  by (simp add: moneyCell_def prefix_def)

text \<open>
  C8: the lookup returns the tag under the key \<open>field_index\<close> when there is one (a
  non-empty tag), else the tag under the bare key when there is one, else nothing; and
  a cell given nothing renders as a cell given \<^verbatim>\<open>direct\<close>. With no
  \<^verbatim>\<open>field_sources\<close> at all the lookup returns nothing.
\<close>

theorem source_lookup_precedence:
  "getSource None key index = None
   \<and> (truthy (m (key @ ''_'' @ decimal index)) \<longrightarrow>
        getSource (Some m) key index = m (key @ ''_'' @ decimal index))
   \<and> (\<not> truthy (m (key @ ''_'' @ decimal index)) \<and> truthy (m key) \<longrightarrow>
        getSource (Some m) key index = m key)
   \<and> (\<not> truthy (m (key @ ''_'' @ decimal index)) \<and> \<not> truthy (m key) \<longrightarrow>
        getSource (Some m) key index = None
        \<and> capexCell val (getSource (Some m) key index) = capexCell val (Some ''direct'')
        \<and> moneyCell val (getSource (Some m) key index) = moneyCell val (Some ''direct''))"
proof -
  have a: "getSource None key index = None"
    by (simp add: getSource_def)
  have b: "getSource (Some m) key index = m (key @ ''_'' @ decimal index)"
    if "truthy (m (key @ ''_'' @ decimal index))"
    using that by (simp add: getSource_def js_or_def)
  have c: "getSource (Some m) key index = m key"
    if "\<not> truthy (m (key @ ''_'' @ decimal index))" and "truthy (m key)"
    using that by (simp add: getSource_def js_or_def)
  have d: "getSource (Some m) key index = None"
    if "\<not> truthy (m (key @ ''_'' @ decimal index))" and "\<not> truthy (m key)"
    using that by (simp add: getSource_def js_or_def)
  have e: "capexCell val None = capexCell val (Some ''direct'')"
    by (cases val) (simp_all add: capexCell_def truthy_def)
  have f: "moneyCell val None = moneyCell val (Some ''direct'')"
    by (cases val) (simp_all add: moneyCell_def)
  from a b c d e f show ?thesis by simp
qed

theorem source_lookup_precedence_witness:
  "getSource (Some capex_sources) ''capex_hist'' 1 = Some ''derived:flat_last_known''
   \<and> capex_sources ''capex_hist'' = None
   \<and> getSource (Some capex_sources) ''capex_hist'' 0 = None
   \<and> capexCell (Num 5) (getSource (Some capex_sources) ''capex_hist'' 0)
       = capexCell (Num 5) (Some ''direct'')
   \<and> getSource (Some sga_sources) ''sga_hist'' 2 = Some ''derived''"
proof -
  have k1: "''capex_hist'' @ ''_'' @ decimal 1 = ''capex_hist_1''"
    by (simp add: decimal_small digit_def)
  have k0: "''capex_hist'' @ ''_'' @ decimal 0 = ''capex_hist_0''"
    by (simp add: decimal_small digit_def)
  note at1 = source_lookup_precedence [of "''capex_hist''" 1 capex_sources "Num 5", unfolded k1]
  note at0 = source_lookup_precedence [of "''capex_hist''" 0 capex_sources "Num 5", unfolded k0]
  have t1: "truthy (capex_sources ''capex_hist_1'')"
    by (simp add: capex_sources_def truthy_def)
  have t0: "\<not> truthy (capex_sources ''capex_hist_0'') \<and> \<not> truthy (capex_sources ''capex_hist'')"
    by (simp add: capex_sources_def truthy_def)
  have v1: "capex_sources ''capex_hist_1'' = Some ''derived:flat_last_known''"
    by (simp add: capex_sources_def)
  have vb: "capex_sources ''capex_hist'' = None"
    by (simp add: capex_sources_def)
  have g1: "getSource (Some capex_sources) ''capex_hist'' 1 = capex_sources ''capex_hist_1''"
    using t1 by (rule mp [OF conjunct1 [OF conjunct2 [OF at1]]])
  have g0: "getSource (Some capex_sources) ''capex_hist'' 0 = None
      \<and> capexCell (Num 5) (getSource (Some capex_sources) ''capex_hist'' 0)
          = capexCell (Num 5) (Some ''direct'')
      \<and> moneyCell (Num 5) (getSource (Some capex_sources) ''capex_hist'' 0)
          = moneyCell (Num 5) (Some ''direct'')"
    using t0 by (rule mp [OF conjunct2 [OF conjunct2 [OF conjunct2 [OF at0]]]])
  have r1: "getSource (Some capex_sources) ''capex_hist'' 1 = Some ''derived:flat_last_known''"
    using g1 v1 by (rule trans)
  note bare = source_lookup_precedence [of "''sga_hist''" 2 sga_sources "Num 5"]
  have k2: "''sga_hist'' @ ''_'' @ decimal 2 = ''sga_hist_2''"
    by (simp add: decimal_small digit_def)
  have t2: "\<not> truthy (sga_sources (''sga_hist'' @ ''_'' @ decimal 2))
      \<and> truthy (sga_sources ''sga_hist'')"
    by (simp add: k2 sga_sources_def truthy_def)
  have v2: "sga_sources ''sga_hist'' = Some ''derived''"
    by (simp add: sga_sources_def)
  have g2: "getSource (Some sga_sources) ''sga_hist'' 2 = sga_sources ''sga_hist''"
    using t2 by (rule mp [OF conjunct1 [OF conjunct2 [OF conjunct2 [OF bare]]]])
  have r2: "getSource (Some sga_sources) ''sga_hist'' 2 = Some ''derived''"
    using g2 v2 by (rule trans)
  from r1 vb conjunct1 [OF g0] conjunct1 [OF conjunct2 [OF g0]] r2 show ?thesis
    by (intro conjI)
qed

section \<open>Properties of the poller\<close>

lemmas poller_defs = run_def fire_def startPipelinePolling_def on_status_def tick_actions_def
  extraction_chain_def perform_def clearInterval_def remove_nth_def initial_def Let_def

text \<open>What a resumed callback can do to the intervals and to the record of refreshes.\<close>

lemma on_status_control:
  "awaiting (on_status t d data s) = awaiting s
   \<and> next_timer (on_status t d data s) = next_timer s
   \<and> ((timers (on_status t d data s) = timers s
          \<and> dashboard_loads (on_status t d data s) = dashboard_loads s)
        \<or> (timers (on_status t d data s) = (timers s)(t := None)
          \<and> dashboard_loads (on_status t d data s) = dashboard_loads s)
        \<or> (timers (on_status t d data s) = (timers s)(t := None)
          \<and> dashboard_loads (on_status t d data s) = dashboard_loads s @ [t]))"
  by (simp add: on_status_def tick_actions_def extraction_chain_def perform_def
      clearInterval_def Let_def split: option.splits)

lemma remove_nth_count:
  assumes "k < length xs"
  shows "count_list (map fst xs) t =
     count_list (map fst (remove_nth k xs)) t + (if fst (xs ! k) = t then 1 else 0)"
proof -
  have "xs = take k xs @ xs ! k # drop (Suc k) xs"
    using assms by (rule id_take_nth_drop)
  then have "count_list (map fst xs) t =
      count_list (map fst (take k xs @ xs ! k # drop (Suc k) xs)) t"
    by simp
  then show ?thesis
    by (simp add: remove_nth_def)
qed

lemma inv_initial: "poller_inv t initial"
  by (simp add: poller_inv_def initial_def)

lemma inv_accept:
  assumes "poller_inv t s"
  shows "poller_inv t (fire s (Accept d))"
proof (cases "t = next_timer s")
  case True
  then show ?thesis
    using assms by (simp add: poller_inv_def fire_def startPipelinePolling_def Let_def)
next
  case False
  then show ?thesis
    using assms by (auto simp add: poller_inv_def fire_def startPipelinePolling_def Let_def)
qed

lemma inv_clear: "poller_inv t s \<Longrightarrow> poller_inv t (fire s ClearUploads)"
  by (simp add: poller_inv_def fire_def)

lemma inv_tick:
  assumes i: "poller_inv t s" and free: "t' = t \<longrightarrow> t \<notin> fst ` set (awaiting s)"
  shows "poller_inv t (fire s (Tick t'))"
proof (cases "timers s t'")
  case None
  then show ?thesis using i by (simp add: fire_def)
next
  case (Some d)
  have f: "fire s (Tick t') = s\<lparr>awaiting := awaiting s @ [(t', d)]\<rparr>"
    using Some by (simp add: fire_def)
  show ?thesis
  proof (cases "t' = t")
    case True
    have c: "count_list (map fst (awaiting s)) t = 0"
      using free True by (simp add: count_list_0_iff)
    have lt: "\<not> next_timer s \<le> t"
      using i Some True by (auto simp add: poller_inv_def)
    have nl: "t \<notin> set (dashboard_loads s)"
      using i Some True by (auto simp add: poller_inv_def)
    show ?thesis
      unfolding f using i c lt nl True by (simp add: poller_inv_def)
  next
    case False
    then show ?thesis
      unfolding f using i by (auto simp add: poller_inv_def)
  qed
qed

lemma inv_removed:
  assumes i: "poller_inv t s" and k: "k < length (awaiting s)"
  shows "poller_inv t (s\<lparr>awaiting := remove_nth k (awaiting s)\<rparr>)"
proof -
  have c: "count_list (map fst (remove_nth k (awaiting s))) t
      \<le> count_list (map fst (awaiting s)) t"
    using remove_nth_count [OF k, of t] by simp
  have m: "t \<notin> fst ` set (remove_nth k (awaiting s))" if "t \<notin> fst ` set (awaiting s)"
  proof -
    have "count_list (map fst (awaiting s)) t = 0"
      using that by (simp add: count_list_0_iff)
    then have "count_list (map fst (remove_nth k (awaiting s))) t = 0"
      using c by simp
    then show ?thesis
      by (simp add: count_list_0_iff)
  qed
  show ?thesis
    using i c m by (auto simp add: poller_inv_def)
qed

lemma inv_failed: "poller_inv t s \<Longrightarrow> poller_inv t (fire s (FetchFailed k))"
proof (cases "k < length (awaiting s)")
  case False
  assume "poller_inv t s"
  with False show ?thesis by (simp add: fire_def)
next
  case True
  assume "poller_inv t s"
  then have "poller_inv t (s\<lparr>awaiting := remove_nth k (awaiting s)\<rparr>)"
    using True by (rule inv_removed)
  then have "poller_inv t (s\<lparr>awaiting := remove_nth k (awaiting s),
      console_errors := console_errors s + 1\<rparr>)"
    by (simp add: poller_inv_def)
  then show ?thesis
    using True by (simp add: fire_def)
qed

lemma inv_reply:
  assumes i: "poller_inv t s"
  shows "poller_inv t (fire s (Reply k data))"
proof (cases "k < length (awaiting s)")
  case False
  with i show ?thesis by (simp add: fire_def)
next
  case True
  define t' where "t' = fst (awaiting s ! k)"
  define d where "d = snd (awaiting s ! k)"
  define s1 where "s1 = s\<lparr>awaiting := remove_nth k (awaiting s)\<rparr>"
  have f: "fire s (Reply k data) = on_status t' d data s1"
    using True by (simp add: fire_def t'_def d_def s1_def)
  have i1: "poller_inv t s1"
    unfolding s1_def using i True by (rule inv_removed)
  have s1f: "dashboard_loads s1 = dashboard_loads s" "next_timer s1 = next_timer s"
    "timers s1 = timers s"
    by (simp_all add: s1_def)
  show ?thesis
  proof (cases "t' = t")
    case False
    then show ?thesis
      unfolding f using on_status_control [of t' d data s1] i1
      by (auto simp add: poller_inv_def)
  next
    case same: True
    have tin: "t \<in> fst ` set (awaiting s)"
      using True same by (auto simp add: t'_def)
    have one: "count_list (map fst (awaiting s)) t \<le> 1"
      using i by (simp add: poller_inv_def)
    have "count_list (map fst (awaiting s1)) t + 1 = count_list (map fst (awaiting s)) t"
      using remove_nth_count [OF True, of t] same by (simp add: t'_def s1_def)
    then have "count_list (map fst (awaiting s1)) t = 0"
      using one by simp
    then have tn: "t \<notin> fst ` set (awaiting s1)"
      by (simp add: count_list_0_iff)
    have tl: "t \<notin> set (dashboard_loads s1)"
      using i tin by (auto simp add: poller_inv_def s1f)
    then have tc: "count_list (dashboard_loads s1) t = 0"
      by (simp add: count_list_0_iff)
    have tlt: "\<not> next_timer s1 \<le> t"
      using i tin by (auto simp add: poller_inv_def s1f)
    show ?thesis
      unfolding f using on_status_control [of t' d data s1] i1 tn tl tc tlt same
      by (auto simp add: poller_inv_def)
  qed
qed

lemma inv_fire:
  assumes "poller_inv t s" and "e = Tick t \<longrightarrow> t \<notin> fst ` set (awaiting s)"
  shows "poller_inv t (fire s e)"
proof (cases e)
  case (Accept d)
  then show ?thesis using assms(1) by (simp add: inv_accept)
next
  case ClearUploads
  then show ?thesis using assms(1) by (simp add: inv_clear)
next
  case (Tick t')
  then show ?thesis using assms by (simp add: inv_tick)
next
  case (Reply k data)
  then show ?thesis using assms(1) by (simp add: inv_reply)
next
  case (FetchFailed k)
  then show ?thesis using assms(1) by (simp add: inv_failed)
qed

lemma inv_run: "poller_inv t s \<Longrightarrow> no_overlap t s es \<Longrightarrow> poller_inv t (run s es)"
proof (induction es arbitrary: s)
  case Nil
  then show ?case by (simp add: run_def)
next
  case (Cons e es)
  from Cons.prems have "poller_inv t (fire s e)" and "no_overlap t (fire s e) es"
    by (simp_all add: inv_fire)
  then have "poller_inv t (run (fire s e) es)" by (rule Cons.IH)
  then show ?case by (simp add: run_def)
qed

text \<open>
  C1, as the code has it. A tick does what the seven cases in their order of precedence
  prescribe, one case at most, unless the OCR status is \<^verbatim>\<open>processing\<close> while the
  extraction status is \<^verbatim>\<open>completed\<close> or \<^verbatim>\<open>failed\<close>: the branch for a running OCR
  does not end the tick, so that the tick writes the stage 1 label and then still takes
  the terminal action of the extraction status. A tick takes at most two actions, of
  which at most one is terminal.
\<close>

theorem tick_follows_precedence:
  "(\<not> (ocr_status data = Some ''processing''
        \<and> (extraction_status data = Some ''completed'' \<or> extraction_status data = Some ''failed''))
     \<longrightarrow> tick_actions data = stage_by_precedence data)
   \<and> (ocr_status data = Some ''processing'' \<and> extraction_status data = Some ''completed''
     \<longrightarrow> tick_actions data = [Show stage1_label, Finish (complete_label data)])
   \<and> (ocr_status data = Some ''processing'' \<and> extraction_status data = Some ''failed''
     \<longrightarrow> tick_actions data = [Show stage1_label, Finish (extraction_failed_label data)])
   \<and> length (tick_actions data) \<le> 2
   \<and> length (filter is_finish (tick_actions data)) \<le> 1"
  by (simp add: tick_actions_def stage_by_precedence_def extraction_chain_def is_finish_def)

theorem tick_follows_precedence_witness:
  "tick_actions ocr_running = stage_by_precedence ocr_running
   \<and> tick_actions ocr_running = [Show stage1_label]
   \<and> filter is_finish (tick_actions ocr_running) = []
   \<and> tick_actions all_done = stage_by_precedence all_done
   \<and> tick_actions all_done = [Finish (complete_label all_done)]
   \<and> tick_actions ocr_running_extraction_done =
       [Show stage1_label, Finish (complete_label ocr_running_extraction_done)]
   \<and> tick_actions ocr_running_extraction_failed =
       [Show stage1_label, Finish (extraction_failed_label ocr_running_extraction_failed)]"
proof -
  have a: "tick_actions ocr_running = stage_by_precedence ocr_running"
    using tick_follows_precedence [of ocr_running] by (simp add: ocr_running_def)
  have b: "stage_by_precedence ocr_running = [Show stage1_label]"
    by (simp add: stage_by_precedence_def ocr_running_def)
  have c: "filter is_finish [Show stage1_label] = []"
    by (simp add: is_finish_def)
  have d: "tick_actions all_done = stage_by_precedence all_done"
    using tick_follows_precedence [of all_done] by (simp add: all_done_def)
  have e: "stage_by_precedence all_done = [Finish (complete_label all_done)]"
    by (simp add: stage_by_precedence_def all_done_def)
  have f: "tick_actions ocr_running_extraction_done =
       [Show stage1_label, Finish (complete_label ocr_running_extraction_done)]"
    using tick_follows_precedence [of ocr_running_extraction_done]
    by (simp add: ocr_running_extraction_done_def)
  have g: "tick_actions ocr_running_extraction_failed =
       [Show stage1_label, Finish (extraction_failed_label ocr_running_extraction_failed)]"
    using tick_follows_precedence [of ocr_running_extraction_failed]
    by (simp add: ocr_running_extraction_failed_def)
  from a b c d e f g show ?thesis by simp
qed

text \<open>
  C1 as stated fails when the response has the OCR status \<^verbatim>\<open>processing\<close> and the
  extraction status \<^verbatim>\<open>completed\<close>: the tick applies two cases' actions, the second of
  them terminal, where the precedence gives the stage 1 label alone; the interval is
  cleared and the dashboard is reloaded.
\<close>

theorem running_ocr_tick_counterexample:
  "ocr_status ocr_running_extraction_done = Some ''processing''
   \<and> tick_actions ocr_running_extraction_done =
       [Show stage1_label, Finish (complete_label ocr_running_extraction_done)]
   \<and> stage_by_precedence ocr_running_extraction_done = [Show stage1_label]
   \<and> timers (run initial [Accept 1, Tick 0, Reply 0 ocr_running_extraction_done]) 0 = None
   \<and> dashboard_loads (run initial [Accept 1, Tick 0, Reply 0 ocr_running_extraction_done]) = [0]"
  by (simp add: ocr_running_extraction_done_def stage_by_precedence_def poller_defs)

text \<open>
  C2, as the code has it. A resumed callback that finds the document's status element
  and observes a terminal stage clears its interval, deletes the document's entry of
  the registry and calls \<^verbatim>\<open>loadDashboard\<close> once. In a run from the initial state in
  which the requests of one poller do not overlap, that poller calls \<^verbatim>\<open>loadDashboard\<close>
  at most once, whatever the other pollers do.
\<close>

theorem terminal_tick_and_single_refresh:
  "(terminal data \<and> anchors s docId \<noteq> None \<longrightarrow>
      timers (on_status interval docId data s) interval = None
      \<and> activePollers (on_status interval docId data s) docId = None
      \<and> dashboard_loads (on_status interval docId data s) = dashboard_loads s @ [interval])
   \<and> (no_overlap interval initial es \<longrightarrow>
        count_list (dashboard_loads (run initial es)) interval \<le> 1)"
proof -
  have a: "timers (on_status interval docId data s) interval = None
      \<and> activePollers (on_status interval docId data s) docId = None
      \<and> dashboard_loads (on_status interval docId data s) = dashboard_loads s @ [interval]"
    if "terminal data" and "anchors s docId \<noteq> None"
    using that
    by (auto simp add: terminal_def on_status_def tick_actions_def extraction_chain_def
        perform_def clearInterval_def Let_def)
  have b: "count_list (dashboard_loads (run initial es)) interval \<le> 1"
    if "no_overlap interval initial es"
  proof -
    have "poller_inv interval (run initial es)"
      using inv_initial that by (rule inv_run)
    then show ?thesis
      by (simp add: poller_inv_def)
  qed
  from a b show ?thesis by blast
qed

theorem terminal_tick_and_single_refresh_witness:
  "terminal all_done \<and> anchors (run initial [Accept 1, Tick 0]) 1 \<noteq> None
   \<and> timers (on_status 0 1 all_done (run initial [Accept 1, Tick 0])) 0 = None
   \<and> activePollers (on_status 0 1 all_done (run initial [Accept 1, Tick 0])) 1 = None
   \<and> dashboard_loads (on_status 0 1 all_done (run initial [Accept 1, Tick 0])) = [0]
   \<and> no_overlap 0 initial [Accept 1, Tick 0, Reply 0 ocr_running, Tick 0, Reply 0 all_done, Tick 0]
   \<and> count_list (dashboard_loads
        (run initial [Accept 1, Tick 0, Reply 0 ocr_running, Tick 0, Reply 0 all_done, Tick 0])) 0 = 1
   \<and> no_overlap 0 initial [Accept 1, Accept 2, Tick 1, Tick 1, Tick 0, Reply 2 all_done]
   \<and> \<not> no_overlap 1 initial [Accept 1, Accept 2, Tick 1, Tick 1, Tick 0, Reply 2 all_done]
   \<and> count_list (dashboard_loads
        (run initial [Accept 1, Accept 2, Tick 1, Tick 1, Tick 0, Reply 2 all_done])) 0 = 1"
proof -
  note one = terminal_tick_and_single_refresh [of all_done "run initial [Accept 1, Tick 0]" 1 0
      "[Accept 1, Tick 0, Reply 0 ocr_running, Tick 0, Reply 0 all_done, Tick 0]"]
  note two = terminal_tick_and_single_refresh [of all_done "run initial [Accept 1, Tick 0]" 1 0
      "[Accept 1, Accept 2, Tick 1, Tick 1, Tick 0, Reply 2 all_done]"]
  have a: "terminal all_done \<and> anchors (run initial [Accept 1, Tick 0]) 1 \<noteq> None
     \<and> timers (on_status 0 1 all_done (run initial [Accept 1, Tick 0])) 0 = None
     \<and> activePollers (on_status 0 1 all_done (run initial [Accept 1, Tick 0])) 1 = None
     \<and> dashboard_loads (on_status 0 1 all_done (run initial [Accept 1, Tick 0])) = [0]
     \<and> no_overlap 0 initial
         [Accept 1, Tick 0, Reply 0 ocr_running, Tick 0, Reply 0 all_done, Tick 0]
     \<and> count_list (dashboard_loads
        (run initial [Accept 1, Tick 0, Reply 0 ocr_running, Tick 0, Reply 0 all_done, Tick 0])) 0
        = 1"
    using one by (simp add: terminal_def all_done_def ocr_running_def poller_defs)
  have b: "no_overlap 0 initial [Accept 1, Accept 2, Tick 1, Tick 1, Tick 0, Reply 2 all_done]"
    by (simp add: all_done_def poller_defs)
  have c: "\<not> no_overlap 1 initial [Accept 1, Accept 2, Tick 1, Tick 1, Tick 0, Reply 2 all_done]"
    by (simp add: all_done_def poller_defs)
  have "count_list (dashboard_loads
        (run initial [Accept 1, Accept 2, Tick 1, Tick 1, Tick 0, Reply 2 all_done])) 0 \<le> 1"
    using b two by blast
  moreover have "0 \<in> set (dashboard_loads
        (run initial [Accept 1, Accept 2, Tick 1, Tick 1, Tick 0, Reply 2 all_done]))"
    by (simp add: all_done_def poller_defs)
  then have "count_list (dashboard_loads
        (run initial [Accept 1, Accept 2, Tick 1, Tick 1, Tick 0, Reply 2 all_done])) 0 \<noteq> 0"
    by (simp add: count_list_0_iff)
  ultimately have d: "count_list (dashboard_loads
        (run initial [Accept 1, Accept 2, Tick 1, Tick 1, Tick 0, Reply 2 all_done])) 0 = 1"
    by linarith
  from a b c d show ?thesis
    by (intro conjI) simp_all
qed

text \<open>
  C2 as stated fails when two requests of one poller overlap: the interval fires a
  second time before the first response arrives, both responses report the extraction
  completed, and each of the two resumed callbacks calls \<^verbatim>\<open>loadDashboard\<close>.
\<close>

theorem overlapping_requests_counterexample:
  "dashboard_loads (run initial [Accept 1, Tick 0, Tick 0, Reply 0 all_done, Reply 0 all_done])
     = [0, 0]
   \<and> count_list (dashboard_loads
        (run initial [Accept 1, Tick 0, Tick 0, Reply 0 all_done, Reply 0 all_done])) 0 = 2"
  by (simp add: all_done_def poller_defs)

text \<open>
  C7, at an input on which the code departs from the claim. Document 7 is accepted, its
  status element is removed from the page, the interval fires and the response
  arrives. The callback clears the interval, writes nothing to the page, logs nothing
  and reloads nothing; the document's entry of the registry, which was there before
  the callback ran, is still there after it.
\<close>

theorem vanished_anchor_keeps_registry_entry:
  "anchors (run initial [Accept 7, ClearUploads, Tick 0]) 7 = None
   \<and> activePollers (run initial [Accept 7, ClearUploads, Tick 0]) 7 = Some 0
   \<and> timers abandoned 0 = None
   \<and> anchors abandoned = Map.empty
   \<and> console_errors abandoned = 0
   \<and> dashboard_loads abandoned = []
   \<and> activePollers abandoned 7 = Some 0"
  by (simp add: abandoned_def all_done_def poller_defs)

end
